theory Spec2Isabelle
  imports Main
begin

section \<open>The policy cache of pkg/policycache/cache.go\<close>

text \<open>
  The cache indexes admission policies by resource kind and by the kind of work a rule
  does. It keeps two structures: \<open>kindDataMap\<close>, from a kind to a policy type to the
  ordered policy names, which \<open>get\<close> reads; and \<open>nameCacheMap\<close>, from a policy type
  to the composite keys \<open>kind/name\<close> already inserted, which \<open>add\<close> consults before
  appending and \<open>remove\<close> prunes.

  The mutex of \<open>pMap\<close> serialises the three operations; each one is modelled as a
  function from the state before to the state after. Pointer arguments
  (\<open>*kyverno.ClusterPolicy\<close>, \<open>*string\<close>) are modelled by the values they point to.
\<close>

subsection \<open>Data\<close>

text \<open>
  Modelled from the spec: the type \<open>PolicyType\<close> is declared in another file of the
  package; cache.go uses its four constants, which section 3 of the specification lists
  as a closed enumeration.
\<close>

datatype PolicyType = Mutate | ValidateEnforce | ValidateAudit | Generate

text \<open>
  Modelled from the spec: the API types \<open>kyverno.Rule\<close> and
  \<open>kyverno.ClusterPolicy\<close> live in pkg/api/kyverno/v1. cache.go reads a rule's
  \<open>MatchResources.Kinds\<close> and its three capability predicates, and a policy's name,
  namespace, \<open>Spec.ValidationFailureAction\<close> and \<open>Spec.Rules\<close> (section 6 of the
  specification gives the same shape).
\<close>

record Rule =
  Kinds :: "string list"
  HasMutate :: bool
  HasValidate :: bool
  HasGenerate :: bool

record ClusterPolicy =
  GetName :: string
  GetNamespace :: string
  ValidationFailureAction :: string
  Rules :: "Rule list"

text \<open>
  A lister returns an object pointer and an error; either may be nil. The type
  \<open>'np\<close> stands for the namespaced \<open>kyverno.Policy\<close> objects of the second lister.
\<close>

type_synonym lister_error = string

text \<open>
  The struct \<open>pMap\<close>. \<open>newPolicyCache\<close> allocates the outer \<open>nameCacheMap\<close> with
  one inner map for each of the four policy types, and no operation removes or
  replaces one of them: the outer map is a total function of the policy type. An inner
  map of \<open>kindDataMap\<close> exists once \<open>add\<close> has met the kind.
\<close>

record 'np pMap =
  kindDataMap :: "string \<rightharpoonup> (PolicyType \<rightharpoonup> string list)"
  nameCacheMap :: "PolicyType \<Rightarrow> (string \<rightharpoonup> bool)"
  pLister :: "string \<Rightarrow> ClusterPolicy option \<times> lister_error option"
  npLister :: "string \<Rightarrow> string \<Rightarrow> 'np option \<times> lister_error option"

definition newPolicyCache ::
  "(string \<Rightarrow> ClusterPolicy option \<times> lister_error option) \<Rightarrow>
   (string \<Rightarrow> string \<Rightarrow> 'np option \<times> lister_error option) \<Rightarrow> 'np pMap" where
  "newPolicyCache pl npl =
     \<lparr>kindDataMap = Map.empty, nameCacheMap = (\<lambda>_. Map.empty), pLister = pl, npLister = npl\<rparr>"

subsection \<open>Reading the index\<close>

text \<open>
  The Go expression \<open>m.kindDataMap[kind][key]\<close>: a missing kind gives a nil inner map,
  a missing policy type a nil slice, and both read as the empty sequence.
\<close>

definition kindData :: "'np pMap \<Rightarrow> string \<Rightarrow> PolicyType \<Rightarrow> string list" where
  "kindData m kind key =
     (case kindDataMap m kind of
        None \<Rightarrow> []
      | Some inner \<Rightarrow> (case inner key of None \<Rightarrow> [] | Some names \<Rightarrow> names))"

subsection \<open>add\<close>

text \<open>
  Lines 87 to 94 of \<open>add\<close> and lines 191 to 195 of \<open>remove\<close> compute the name under
  which the policy is indexed: \<open>namespace/name\<close> for a policy with a namespace.
\<close>

definition pName :: "ClusterPolicy \<Rightarrow> string" where
  "pName policy =
     (if GetNamespace policy \<noteq> [] then GetNamespace policy @ ''/'' @ GetName policy
      else GetName policy)"

definition isNamespacedPolicy :: "ClusterPolicy \<Rightarrow> bool" where
  "isNamespacedPolicy policy = (GetNamespace policy \<noteq> [])"

text \<open>
  \<open>p := m.kindDataMap[kind][t]; m.kindDataMap[kind][t] = append(p, name)\<close>. The inner
  map of the kind exists when this runs, because the loop body creates it first.
\<close>

definition appendName :: "string \<Rightarrow> PolicyType \<Rightarrow> string \<Rightarrow> 'np pMap \<Rightarrow> 'np pMap" where
  "appendName kind t name m =
     (let inner = (case kindDataMap m kind of None \<Rightarrow> Map.empty | Some i \<Rightarrow> i)
      in m\<lparr>kindDataMap := (kindDataMap m)(kind \<mapsto> inner(t \<mapsto> kindData m kind t @ [name]))\<rparr>)"

text \<open>
  The block that \<open>add\<close> repeats for each of the four policy types (lines 104 to 114 for
  \<open>Mutate\<close>): if the composite key is not yet recorded, record it and append the name.
  The local \<open>mutateMap\<close> and its three siblings are references to the inner maps of
  \<open>nameCacheMap\<close>, so a write through them is a write to \<open>nameCacheMap\<close>, and the four
  assignments that end \<open>add\<close> store the same references back.
\<close>

definition addUnder :: "PolicyType \<Rightarrow> ClusterPolicy \<Rightarrow> string \<Rightarrow> 'np pMap \<Rightarrow> 'np pMap" where
  "addUnder t policy kind m =
     (if nameCacheMap m t (kind @ ''/'' @ pName policy) \<noteq> Some True then
        (let m' = m\<lparr>nameCacheMap :=
                     (nameCacheMap m)(t := (nameCacheMap m t)(kind @ ''/'' @ pName policy \<mapsto> True))\<rparr>
         in if isNamespacedPolicy policy then appendName kind t (pName policy) m'
            else appendName kind t (GetName policy) m')
      else m)"

text \<open>The body of the inner loop, lines 98 to 157, for one rule and one of its kinds.\<close>

definition addKind :: "ClusterPolicy \<Rightarrow> Rule \<Rightarrow> string \<Rightarrow> 'np pMap \<Rightarrow> 'np pMap" where
  "addKind policy rule kind m =
     (let m1 = (if kindDataMap m kind = None
                then m\<lparr>kindDataMap := (kindDataMap m)(kind \<mapsto> Map.empty)\<rparr> else m)
      in if HasMutate rule then addUnder Mutate policy kind m1
         else if HasValidate rule then
           (if ValidationFailureAction policy = ''enforce''
            then addUnder ValidateEnforce policy kind m1
            else addUnder ValidateAudit policy kind m1)
         else if HasGenerate rule then addUnder Generate policy kind m1
         else m1)"

definition add :: "'np pMap \<Rightarrow> ClusterPolicy \<Rightarrow> 'np pMap" where
  "add m policy =
     fold (\<lambda>rule. fold (addKind policy rule) (Kinds rule)) (Rules policy) m"

subsection \<open>remove\<close>

text \<open>
  Lines 199 to 203: the loop over the inner maps of \<open>nameCacheMap\<close> deletes the
  composite key from each map that has it. \<open>kindDataMap\<close> is not touched.
\<close>

definition removeKey :: "string \<Rightarrow> PolicyType \<Rightarrow> 'np pMap \<Rightarrow> 'np pMap" where
  "removeKey k t m =
     (if nameCacheMap m t k \<noteq> None
      then m\<lparr>nameCacheMap := (nameCacheMap m)(t := (nameCacheMap m t)(k := None))\<rparr>
      else m)"

definition removeKind :: "ClusterPolicy \<Rightarrow> string \<Rightarrow> 'np pMap \<Rightarrow> 'np pMap" where
  "removeKind policy kind m =
     fold (removeKey (kind @ ''/'' @ pName policy))
       [Mutate, ValidateEnforce, ValidateAudit, Generate] m"

definition remove :: "'np pMap \<Rightarrow> ClusterPolicy \<Rightarrow> 'np pMap" where
  "remove m policy =
     fold (\<lambda>rule. fold (removeKind policy) (Kinds rule)) (Rules policy) m"

subsection \<open>get\<close>

text \<open>
  \<open>policy2.ParseNamespacedPolicy\<close> and \<open>policy2.ConvertPolicyToClusterPolicy\<close> belong
  to pkg/policy; \<open>get\<close> takes them as the parameters \<open>parse\<close> and \<open>convert\<close>. The
  error that a lister returns is dropped, as the blank identifier of lines 172 and 177
  does.
\<close>

type_synonym parser = "string \<Rightarrow> string \<times> string \<times> bool"

definition getEntry ::
  "parser \<Rightarrow> ('np option \<Rightarrow> ClusterPolicy option) \<Rightarrow> 'np pMap \<Rightarrow> string \<Rightarrow> string \<Rightarrow>
   string list \<times> ClusterPolicy option list \<Rightarrow> string list \<times> ClusterPolicy option list" where
  "getEntry parse convert m nspace policyName acc =
     (case acc of (pname, allPolicies) \<Rightarrow>
      (case parse policyName of (ns, key, namespaced) \<Rightarrow>
         if \<not> namespaced then
           (let policy = fst (pLister m key)
            in (pname @ [policyName], allPolicies @ [policy]))
         else if ns = nspace then
           (let nspolicy = fst (npLister m ns key);
                policy = convert nspolicy
            in (pname @ [key], allPolicies @ [policy]))
         else (pname, allPolicies)))"

text \<open>The loop of lines 169 to 184 over a sequence of indexed names, from empty results.\<close>

definition getLoop ::
  "parser \<Rightarrow> ('np option \<Rightarrow> ClusterPolicy option) \<Rightarrow> 'np pMap \<Rightarrow> string \<Rightarrow> string list \<Rightarrow>
   string list \<times> ClusterPolicy option list" where
  "getLoop parse convert m nspace names = fold (getEntry parse convert m nspace) names ([], [])"

definition get ::
  "parser \<Rightarrow> ('np option \<Rightarrow> ClusterPolicy option) \<Rightarrow> 'np pMap \<Rightarrow> PolicyType \<Rightarrow> string \<Rightarrow> string \<Rightarrow>
   string list \<times> ClusterPolicy option list" where
  "get parse convert m key kind nspace = getLoop parse convert m nspace (kindData m kind key)"

text \<open>
  Modelled from the spec: \<open>ParseNamespacedPolicy\<close> is not in cache.go. Section 3 of the
  specification writes a namespaced identifier as \<open>namespace + "/" + name\<close> and section 6
  gives the parser the result \<open>(namespace, name, isNamespaced)\<close>; this definition splits
  at the first separator. The theorems about \<open>get\<close> hold for every parser; this one is
  used where a concrete parser is needed.
\<close>

definition ParseNamespacedPolicy :: parser where
  "ParseNamespacedPolicy key =
     (if CHR ''/'' \<in> set key
      then (takeWhile (\<lambda>c. c \<noteq> CHR ''/'') key, tl (dropWhile (\<lambda>c. c \<noteq> CHR ''/'') key), True)
      else ([], key, False))"

subsection \<open>The classification of section 4.1\<close>

text \<open>
  The precedence list the specification gives for a rule: mutate first, then validate
  (split by the failure action of the policy), then generate. It is stated here in the
  specification's words and compared with the branches of \<open>addKind\<close> below.
\<close>

definition classify :: "ClusterPolicy \<Rightarrow> Rule \<Rightarrow> PolicyType option" where
  "classify policy rule =
     (if HasMutate rule then Some Mutate
      else if HasValidate rule then
        Some (if ValidationFailureAction policy = ''enforce'' then ValidateEnforce else ValidateAudit)
      else if HasGenerate rule then Some Generate
      else None)"


text \<open>
  A policy is indexed under a policy type for a kind when one of its rules matches the
  kind and is classified into that type.
\<close>

definition indexedUnder :: "ClusterPolicy \<Rightarrow> string \<Rightarrow> PolicyType \<Rightarrow> bool" where
  "indexedUnder policy kind t =
     (\<exists>rule \<in> set (Rules policy). kind \<in> set (Kinds rule) \<and> classify policy rule = Some t)"

text \<open>The pairs of a rule and one of its kinds, in the order in which the two loops visit them.\<close>

definition rulePairs :: "ClusterPolicy \<Rightarrow> (Rule \<times> string) list" where
  "rulePairs policy = concat (map (\<lambda>rule. map (Pair rule) (Kinds rule)) (Rules policy))"

subsection \<open>What one indexed name contributes to a result of get\<close>

text \<open>
  Three readings of the loop body of \<open>get\<close> for one indexed name: whether the entry is
  returned for the requested namespace, the name that is returned, and the object that is
  returned. They are used to state the results of \<open>get\<close> in closed form.
\<close>

definition entryVisible :: "parser \<Rightarrow> string \<Rightarrow> string \<Rightarrow> bool" where
  "entryVisible parse nspace policyName =
     (case parse policyName of (ns, key, namespaced) \<Rightarrow> if namespaced then ns = nspace else True)"

definition entryName :: "parser \<Rightarrow> string \<Rightarrow> string" where
  "entryName parse policyName =
     (case parse policyName of (ns, key, namespaced) \<Rightarrow> if namespaced then key else policyName)"

definition entryPolicy ::
  "parser \<Rightarrow> ('np option \<Rightarrow> ClusterPolicy option) \<Rightarrow> 'np pMap \<Rightarrow> string \<Rightarrow> ClusterPolicy option" where
  "entryPolicy parse convert m policyName =
     (case parse policyName of (ns, key, namespaced) \<Rightarrow>
        if namespaced then convert (fst (npLister m ns key)) else fst (pLister m key))"

subsection \<open>Sequences of operations\<close>

text \<open>
  The informer calls \<open>Add\<close> and \<open>Remove\<close> of the facade, which call \<open>add\<close> and
  \<open>remove\<close> under the lock; \<open>run\<close> applies a sequence of such calls in order. Two
  properties of a state are stated for the sequences: \<open>mirrored\<close>, which says that the
  names of each sequence are distinct and all recorded in \<open>nameCacheMap\<close>, and
  \<open>recordedIndexed\<close>, which says that a recorded key of a kind without a separator has
  its name in the sequence of the kind.
\<close>

datatype operation = Add ClusterPolicy | Remove ClusterPolicy

fun applyOperation :: "operation \<Rightarrow> 'np pMap \<Rightarrow> 'np pMap" where
  "applyOperation (Add policy) m = add m policy"
| "applyOperation (Remove policy) m = remove m policy"

definition run :: "'np pMap \<Rightarrow> operation list \<Rightarrow> 'np pMap" where
  "run m ops = fold applyOperation ops m"

fun policyOf :: "operation \<Rightarrow> ClusterPolicy" where
  "policyOf (Add policy) = policy"
| "policyOf (Remove policy) = policy"

fun isAdd :: "operation \<Rightarrow> bool" where
  "isAdd (Add policy) = True"
| "isAdd (Remove policy) = False"

definition plainKinds :: "ClusterPolicy \<Rightarrow> bool" where
  "plainKinds policy =
     (\<forall>rule \<in> set (Rules policy). \<forall>kind \<in> set (Kinds rule). CHR ''/'' \<notin> set kind)"

definition mirrored :: "'np pMap \<Rightarrow> bool" where
  "mirrored m =
     (\<forall>kind t. distinct (kindData m kind t) \<and>
        (\<forall>name \<in> set (kindData m kind t). nameCacheMap m t (kind @ ''/'' @ name) = Some True))"

definition recordedIndexed :: "'np pMap \<Rightarrow> bool" where
  "recordedIndexed m =
     (\<forall>kind t name. CHR ''/'' \<notin> set kind \<and> nameCacheMap m t (kind @ ''/'' @ name) = Some True \<longrightarrow>
        name \<in> set (kindData m kind t))"

subsection \<open>Example policies and listers\<close>

text \<open>
  The policies of the examples in section 8 of the specification: the namespaced policy
  \<open>ns1/p1\<close> whose rule on \<open>Pod\<close> both mutates and validates, the cluster policy \<open>p2\<close>
  that generates on \<open>Pod\<close>, the cluster policy \<open>p3\<close> that generates on \<open>ConfigMap\<close>;
  and two more, a validating policy and a policy with two rules on one kind.
\<close>

definition policyP1 :: ClusterPolicy where
  "policyP1 = \<lparr>GetName = ''p1'', GetNamespace = ''ns1'', ValidationFailureAction = ''audit'',
     Rules = [\<lparr>Kinds = [''Pod''], HasMutate = True, HasValidate = True, HasGenerate = False\<rparr>]\<rparr>"

definition policyP2 :: ClusterPolicy where
  "policyP2 = \<lparr>GetName = ''p2'', GetNamespace = [], ValidationFailureAction = ''audit'',
     Rules = [\<lparr>Kinds = [''Pod''], HasMutate = False, HasValidate = False, HasGenerate = True\<rparr>]\<rparr>"

definition policyP3 :: ClusterPolicy where
  "policyP3 = \<lparr>GetName = ''p3'', GetNamespace = [], ValidationFailureAction = ''audit'',
     Rules = [\<lparr>Kinds = [''ConfigMap''], HasMutate = False, HasValidate = False, HasGenerate = True\<rparr>]\<rparr>"

definition policyValidate :: "string \<Rightarrow> ClusterPolicy" where
  "policyValidate action = \<lparr>GetName = ''check'', GetNamespace = [], ValidationFailureAction = action,
     Rules = [\<lparr>Kinds = [''Pod'', ''Deployment''], HasMutate = False, HasValidate = True,
               HasGenerate = False\<rparr>]\<rparr>"

definition policyTwoRules :: ClusterPolicy where
  "policyTwoRules = \<lparr>GetName = ''both'', GetNamespace = [], ValidationFailureAction = ''enforce'',
     Rules = [\<lparr>Kinds = [''Pod''], HasMutate = True, HasValidate = False, HasGenerate = False\<rparr>,
              \<lparr>Kinds = [''Pod''], HasMutate = False, HasValidate = True, HasGenerate = False\<rparr>]\<rparr>"

text \<open>
  Two policies whose composite keys coincide: the namespaced policy \<open>b/c\<close> with a rule
  on the kind \<open>a\<close>, and the cluster policy \<open>c\<close> with a rule on the kind \<open>a/b\<close>.
  Both keys are the string \<open>a/b/c\<close>. The rule validates, and mutates as well when the
  argument is true; the failure action is \<open>enforce\<close>.
\<close>

definition policyNamespacedC :: "bool \<Rightarrow> ClusterPolicy" where
  "policyNamespacedC mutates =
     \<lparr>GetName = ''c'', GetNamespace = ''b'', ValidationFailureAction = ''enforce'',
      Rules = [\<lparr>Kinds = [''a''], HasMutate = mutates, HasValidate = True, HasGenerate = False\<rparr>]\<rparr>"

definition policyClusterC :: "bool \<Rightarrow> ClusterPolicy" where
  "policyClusterC mutates =
     \<lparr>GetName = ''c'', GetNamespace = [], ValidationFailureAction = ''enforce'',
      Rules = [\<lparr>Kinds = [''a/b''], HasMutate = mutates, HasValidate = True, HasGenerate = False\<rparr>]\<rparr>"

text \<open>
  A cluster lister that holds \<open>p2\<close> and \<open>p3\<close> only, a namespaced lister that holds
  \<open>ns1/p1\<close> only, and the conversion of a namespaced object for these examples, where
  both listers hold objects of the one record type.
\<close>

definition clusterStore :: "string \<Rightarrow> ClusterPolicy option \<times> lister_error option" where
  "clusterStore name =
     (if name = ''p2'' then (Some policyP2, None)
      else if name = ''p3'' then (Some policyP3, None)
      else (None, Some ''not found''))"

definition namespacedStore :: "string \<Rightarrow> string \<Rightarrow> ClusterPolicy option \<times> lister_error option" where
  "namespacedStore ns name =
     (if ns = ''ns1'' \<and> name = ''p1'' then (Some policyP1, None) else (None, Some ''not found''))"

definition sameObject :: "ClusterPolicy option \<Rightarrow> ClusterPolicy option" where
  "sameObject nspolicy = nspolicy"

definition emptyCache :: "ClusterPolicy pMap" where
  "emptyCache = newPolicyCache clusterStore namespacedStore"

section \<open>Properties\<close>

subsection \<open>The empty index\<close>

lemma kindData_empty: "kindDataMap m = Map.empty \<Longrightarrow> kindData m kind t = []"
  by (simp add: kindData_def)

subsection \<open>One step of add\<close>

lemma kindData_nameCacheMap_update [simp]:
  "kindData (m\<lparr>nameCacheMap := x\<rparr>) = kindData m"
  by (simp add: kindData_def fun_eq_iff)

lemma kindData_appendName:
  "kindData (appendName kind t name m) k c =
     (if k = kind \<and> c = t then kindData m k c @ [name] else kindData m k c)"
  by (auto simp: kindData_def appendName_def Let_def split: option.splits)

lemma nameCacheMap_appendName: "nameCacheMap (appendName kind t name m) = nameCacheMap m"
  by (simp add: appendName_def Let_def)

lemma appended_name:
  "(if isNamespacedPolicy policy then appendName kind t (pName policy) m
    else appendName kind t (GetName policy) m) = appendName kind t (pName policy) m"
  by (simp add: isNamespacedPolicy_def pName_def)

lemma kindData_addUnder:
  "kindData (addUnder t policy kind m) k c =
     kindData m k c @
       (if k = kind \<and> c = t \<and> nameCacheMap m t (kind @ ''/'' @ pName policy) \<noteq> Some True
        then [pName policy] else [])"
  by (simp add: addUnder_def Let_def appended_name kindData_appendName)

lemma nameCacheMap_addUnder:
  "nameCacheMap (addUnder t policy kind m) c =
     (if c = t then (nameCacheMap m t)(kind @ ''/'' @ pName policy \<mapsto> True) else nameCacheMap m c)"
  by (auto simp: addUnder_def Let_def appended_name nameCacheMap_appendName map_upd_triv)

lemma kindData_new_kind:
  "kindData (m\<lparr>kindDataMap := (kindDataMap m)(kind \<mapsto> Map.empty)\<rparr>) k c =
     (if k = kind then [] else kindData m k c)"
  by (simp add: kindData_def)

lemma kindData_addKind:
  "kindData (addKind policy rule kind m) k c =
     kindData m k c @
       (if k = kind \<and> classify policy rule = Some c \<and>
           nameCacheMap m c (kind @ ''/'' @ pName policy) \<noteq> Some True
        then [pName policy] else [])"
  by (auto simp: addKind_def Let_def classify_def kindData_addUnder kindData_new_kind)
     (auto simp: kindData_def)

lemma nameCacheMap_addKind:
  "nameCacheMap (addKind policy rule kind m) c =
     (if classify policy rule = Some c
      then (nameCacheMap m c)(kind @ ''/'' @ pName policy \<mapsto> True)
      else nameCacheMap m c)"
  by (auto simp: addKind_def Let_def classify_def nameCacheMap_addUnder)

lemma listers_appendName:
  "pLister (appendName kind t name m) = pLister m \<and> npLister (appendName kind t name m) = npLister m"
  by (simp add: appendName_def Let_def)

lemma listers_addUnder:
  "pLister (addUnder t policy kind m) = pLister m \<and> npLister (addUnder t policy kind m) = npLister m"
  by (simp add: addUnder_def Let_def listers_appendName)

lemma listers_addKind:
  "pLister (addKind policy rule kind m) = pLister m \<and>
   npLister (addKind policy rule kind m) = npLister m"
  by (simp add: addKind_def Let_def listers_addUnder)

lemma addUnder_noop:
  "nameCacheMap m t (kind @ ''/'' @ pName policy) = Some True \<Longrightarrow> addUnder t policy kind m = m"
  by (simp add: addUnder_def)

lemma addKind_noop:
  assumes "kindDataMap m kind \<noteq> None"
    and "\<And>t. classify policy rule = Some t \<Longrightarrow>
           nameCacheMap m t (kind @ ''/'' @ pName policy) = Some True"
  shows "addKind policy rule kind m = m"
  using assms by (auto simp: addKind_def classify_def addUnder_noop split: if_splits)

lemma dom_kindDataMap_appendName:
  "dom (kindDataMap (appendName kind t name m)) = insert kind (dom (kindDataMap m))"
  by (simp add: appendName_def Let_def)

lemma dom_kindDataMap_addUnder:
  "kind \<in> dom (kindDataMap m) \<Longrightarrow>
   dom (kindDataMap (addUnder t policy kind m)) = dom (kindDataMap m)"
  by (auto simp: addUnder_def Let_def dom_kindDataMap_appendName)

lemma dom_kindDataMap_addKind:
  "dom (kindDataMap (addKind policy rule kind m)) = insert kind (dom (kindDataMap m))"
proof -
  define m1 where "m1 = (if kindDataMap m kind = None
                then m\<lparr>kindDataMap := (kindDataMap m)(kind \<mapsto> Map.empty)\<rparr> else m)"
  have d: "dom (kindDataMap m1) = insert kind (dom (kindDataMap m))"
    by (auto simp: m1_def)
  then have k: "kind \<in> dom (kindDataMap m1)" by simp
  have "dom (kindDataMap (addKind policy rule kind m)) = dom (kindDataMap m1)"
    unfolding addKind_def Let_def m1_def [symmetric]
    by (simp add: dom_kindDataMap_addUnder [OF k])
  with d show ?thesis by simp
qed

subsection \<open>The two loops of add\<close>

lemma set_rulePairs:
  "((rule, kind) \<in> set (rulePairs policy)) =
     (rule \<in> set (Rules policy) \<and> kind \<in> set (Kinds rule))"
  by (auto simp: rulePairs_def)

lemma add_rulePairs:
  "add m policy = fold (\<lambda>(rule, kind). addKind policy rule kind) (rulePairs policy) m"
proof -
  have "fold (\<lambda>(rule, kind). addKind policy rule kind)
          (concat (map (\<lambda>rule. map (Pair rule) (Kinds rule)) rs)) s
        = fold (\<lambda>rule. fold (addKind policy rule) (Kinds rule)) rs s"
    for rs and s :: "'a pMap"
    by (induction rs arbitrary: s) (simp_all add: fold_map comp_def)
  then show ?thesis by (simp add: add_def rulePairs_def)
qed

lemma nameCacheMap_addKinds:
  "nameCacheMap (fold (\<lambda>(rule, kind). addKind policy rule kind) ps m) c k =
     (if \<exists>(rule, kind) \<in> set ps. classify policy rule = Some c \<and> k = kind @ ''/'' @ pName policy
      then Some True else nameCacheMap m c k)"
  by (induction ps arbitrary: m) (auto simp: nameCacheMap_addKind split: if_splits)

lemma kindData_addKinds:
  "kindData (fold (\<lambda>(rule, kind). addKind policy rule kind) ps m) k c =
     kindData m k c @
       (if (\<exists>rule. (rule, k) \<in> set ps \<and> classify policy rule = Some c) \<and>
           nameCacheMap m c (k @ ''/'' @ pName policy) \<noteq> Some True
        then [pName policy] else [])"
proof (induction ps arbitrary: m)
  case Nil
  then show ?case by simp
next
  case (Cons p ps)
  obtain rule kind where p: "p = (rule, kind)" by (cases p)
  show ?case
    unfolding p by (simp add: Cons.IH kindData_addKind nameCacheMap_addKind) auto
qed

lemma listers_addKinds:
  "pLister (fold (\<lambda>(rule, kind). addKind policy rule kind) ps m) = pLister m \<and>
   npLister (fold (\<lambda>(rule, kind). addKind policy rule kind) ps m) = npLister m"
  by (induction ps arbitrary: m) (simp_all add: listers_addKind split_beta)

lemma dom_kindDataMap_addKinds:
  "dom (kindDataMap (fold (\<lambda>(rule, kind). addKind policy rule kind) ps m)) =
     dom (kindDataMap m) \<union> snd ` set ps"
  by (induction ps arbitrary: m) (simp_all add: dom_kindDataMap_addKind split_beta)

lemma nameCacheMap_add:
  "nameCacheMap (add m policy) t k =
     (if \<exists>kind. indexedUnder policy kind t \<and> k = kind @ ''/'' @ pName policy
      then Some True else nameCacheMap m t k)"
proof -
  have "(\<exists>(rule, kind) \<in> set (rulePairs policy).
            classify policy rule = Some t \<and> k = kind @ ''/'' @ pName policy)
        = (\<exists>kind. indexedUnder policy kind t \<and> k = kind @ ''/'' @ pName policy)"
    unfolding indexedUnder_def by (auto simp: set_rulePairs)
  then show ?thesis
    unfolding add_rulePairs nameCacheMap_addKinds by simp
qed

lemma kindData_add:
  "kindData (add m policy) kind t =
     kindData m kind t @
       (if indexedUnder policy kind t \<and>
           nameCacheMap m t (kind @ ''/'' @ pName policy) \<noteq> Some True
        then [pName policy] else [])"
  unfolding add_rulePairs kindData_addKinds indexedUnder_def
  by (auto simp: set_rulePairs)

lemma listers_add: "pLister (add m policy) = pLister m \<and> npLister (add m policy) = npLister m"
  unfolding add_rulePairs by (rule listers_addKinds)

lemma dom_kindDataMap_add:
  "dom (kindDataMap (add m policy)) =
     dom (kindDataMap m) \<union> {kind. \<exists>rule \<in> set (Rules policy). kind \<in> set (Kinds rule)}"
  unfolding add_rulePairs dom_kindDataMap_addKinds
  by (auto simp: set_rulePairs image_iff) (metis set_rulePairs snd_conv)

lemma fold_noop: "(\<And>x. x \<in> set xs \<Longrightarrow> f x s = s) \<Longrightarrow> fold f xs s = s"
  by (induction xs) simp_all

lemma add_twice: "add (add m policy) policy = add m policy"
proof -
  let ?f = "\<lambda>(rule, kind). addKind policy rule kind :: 'a pMap \<Rightarrow> 'a pMap"
  let ?m = "fold ?f (rulePairs policy) m"
  have "?f x ?m = ?m" if x: "x \<in> set (rulePairs policy)" for x
  proof -
    obtain rule kind where xp: "x = (rule, kind)" by (cases x)
    have "kind \<in> dom (kindDataMap ?m)"
      using x unfolding xp dom_kindDataMap_addKinds by force
    then have 1: "kindDataMap ?m kind \<noteq> None" by auto
    have 2: "nameCacheMap ?m t (kind @ ''/'' @ pName policy) = Some True"
      if "classify policy rule = Some t" for t
      using x that unfolding xp nameCacheMap_addKinds by auto
    show ?thesis unfolding xp using addKind_noop [OF 1 2] by simp
  qed
  then have "fold ?f (rulePairs policy) ?m = ?m" by (rule fold_noop)
  then show ?thesis by (simp add: add_rulePairs)
qed

subsection \<open>remove\<close>

lemma removeKey_frame:
  "kindDataMap (removeKey k t m) = kindDataMap m \<and> pLister (removeKey k t m) = pLister m \<and>
   npLister (removeKey k t m) = npLister m"
  by (simp add: removeKey_def)

lemma nameCacheMap_removeKey:
  "nameCacheMap (removeKey k t m) c =
     (if c = t then (nameCacheMap m c)(k := None) else nameCacheMap m c)"
  by (auto simp: removeKey_def fun_eq_iff domIff)

lemma nameCacheMap_removeKind:
  "nameCacheMap (removeKind policy kind m) c =
     (nameCacheMap m c)(kind @ ''/'' @ pName policy := None)"
  by (cases c) (simp_all add: removeKind_def nameCacheMap_removeKey)

lemma removeKind_frame:
  "kindDataMap (removeKind policy kind m) = kindDataMap m \<and>
   pLister (removeKind policy kind m) = pLister m \<and>
   npLister (removeKind policy kind m) = npLister m"
  by (simp add: removeKind_def removeKey_frame)

lemma remove_rulePairs:
  "remove m policy = fold (\<lambda>(rule, kind). removeKind policy kind) (rulePairs policy) m"
proof -
  have "fold (\<lambda>(rule, kind). removeKind policy kind)
          (concat (map (\<lambda>rule. map (Pair rule) (Kinds rule)) rs)) s
        = fold (\<lambda>rule. fold (removeKind policy) (Kinds rule)) rs s"
    for rs :: "Rule list" and s :: "'a pMap"
    by (induction rs arbitrary: s) (simp_all add: fold_map comp_def)
  then show ?thesis by (simp add: remove_def rulePairs_def)
qed

lemma removeKinds_frame:
  "kindDataMap (fold (\<lambda>(rule, kind). removeKind policy kind) ps m) = kindDataMap m \<and>
   pLister (fold (\<lambda>(rule, kind). removeKind policy kind) ps m) = pLister m \<and>
   npLister (fold (\<lambda>(rule, kind). removeKind policy kind) ps m) = npLister m"
  by (induction ps arbitrary: m) (simp_all add: removeKind_frame split_beta)

lemma nameCacheMap_removeKinds:
  "nameCacheMap (fold (\<lambda>(rule, kind). removeKind policy kind) ps m) c k =
     (if \<exists>(rule, kind) \<in> set ps. k = kind @ ''/'' @ pName policy then None
      else nameCacheMap m c k)"
  by (induction ps arbitrary: m) (auto simp: nameCacheMap_removeKind)

lemma remove_frame:
  "kindDataMap (remove m policy) = kindDataMap m \<and> pLister (remove m policy) = pLister m \<and>
   npLister (remove m policy) = npLister m"
  unfolding remove_rulePairs by (rule removeKinds_frame)

lemma kindData_remove: "kindData (remove m policy) = kindData m"
  by (simp add: kindData_def fun_eq_iff remove_frame)

lemma nameCacheMap_remove:
  "nameCacheMap (remove m policy) t k =
     (if \<exists>rule \<in> set (Rules policy). \<exists>kind \<in> set (Kinds rule). k = kind @ ''/'' @ pName policy
      then None else nameCacheMap m t k)"
proof -
  have "(\<exists>(rule, kind) \<in> set (rulePairs policy). k = kind @ ''/'' @ pName policy)
        = (\<exists>rule \<in> set (Rules policy). \<exists>kind \<in> set (Kinds rule). k = kind @ ''/'' @ pName policy)"
    by (auto simp: set_rulePairs)
  then show ?thesis
    unfolding remove_rulePairs nameCacheMap_removeKinds by simp
qed

subsection \<open>get\<close>

lemma getEntry_closed:
  "getEntry parse convert m nspace policyName acc =
     (fst acc @ (if entryVisible parse nspace policyName then [entryName parse policyName] else []),
      snd acc @ (if entryVisible parse nspace policyName
                 then [entryPolicy parse convert m policyName] else []))"
  by (auto simp: getEntry_def entryVisible_def entryName_def entryPolicy_def Let_def
           split: prod.splits)

lemma fold_getEntry:
  "fold (getEntry parse convert m nspace) names acc =
     (fst acc @ map (entryName parse) (filter (entryVisible parse nspace) names),
      snd acc @ map (entryPolicy parse convert m) (filter (entryVisible parse nspace) names))"
  by (induction names arbitrary: acc) (simp_all add: getEntry_closed)

lemma getLoop_closed:
  "getLoop parse convert m nspace names =
     (map (entryName parse) (filter (entryVisible parse nspace) names),
      map (entryPolicy parse convert m) (filter (entryVisible parse nspace) names))"
  by (simp add: getLoop_def fold_getEntry)

lemma getLoop_append:
  "getLoop parse convert m nspace (xs @ ys) =
     (fst (getLoop parse convert m nspace xs) @ fst (getLoop parse convert m nspace ys),
      snd (getLoop parse convert m nspace xs) @ snd (getLoop parse convert m nspace ys))"
  by (simp add: getLoop_closed)

lemma getLoop_listers:
  "pLister m' = pLister m \<Longrightarrow> npLister m' = npLister m \<Longrightarrow>
   getLoop parse convert m' nspace names = getLoop parse convert m nspace names"
proof -
  assume "pLister m' = pLister m" and "npLister m' = npLister m"
  then have "entryPolicy parse convert m' = entryPolicy parse convert m"
    by (simp add: entryPolicy_def fun_eq_iff split: prod.splits)
  then show ?thesis by (simp add: getLoop_closed)
qed

subsection \<open>get after add\<close>





subsection \<open>Sequences of operations\<close>

text \<open>
  Without \<open>remove\<close> the two structures mirror each other and no name is repeated.
  With \<open>remove\<close>, and kinds that are plain names without the separator, a recorded key
  still has its name in the sequence: the guard of \<open>add\<close> then skips only names that are
  indexed already.
\<close>

lemma mirrored_add: "mirrored m \<Longrightarrow> mirrored (add m policy)"
  unfolding mirrored_def
  by (auto simp: kindData_add nameCacheMap_add)

lemma mirrored_new: "mirrored (newPolicyCache pl npl)"
  by (simp add: mirrored_def kindData_empty newPolicyCache_def)

lemma mirrored_run:
  "mirrored m \<Longrightarrow> \<forall>op \<in> set ops. isAdd op \<Longrightarrow> mirrored (run m ops)"
  unfolding run_def
proof (induction ops arbitrary: m)
  case Nil
  then show ?case by simp
next
  case (Cons op ops)
  then show ?case by (cases op) (simp_all add: mirrored_add)
qed

lemma adds_keep_names_distinct:
  "\<forall>op \<in> set ops. isAdd op \<Longrightarrow> distinct (kindData (run (newPolicyCache pl npl) ops) kind t)"
  using mirrored_run [OF mirrored_new] unfolding mirrored_def by blast

lemma plain_key_split:
  assumes "CHR ''/'' \<notin> set kind" and "CHR ''/'' \<notin> set kind'"
    and "kind @ ''/'' @ name = kind' @ ''/'' @ name'"
  shows "kind = kind' \<and> name = name'"
proof -
  have "takeWhile (\<lambda>c. c \<noteq> CHR ''/'') (k @ ''/'' @ n) = k" if "CHR ''/'' \<notin> set k" for k n
    using that by (induction k) auto
  then have "kind = kind'" using assms by metis
  then show ?thesis using assms(3) by simp
qed

lemma recordedIndexed_add:
  assumes "recordedIndexed m" and "plainKinds policy"
  shows "recordedIndexed (add m policy)"
  unfolding recordedIndexed_def
proof (intro allI impI)
  fix kind t name
  assume h: "CHR ''/'' \<notin> set kind \<and> nameCacheMap (add m policy) t (kind @ ''/'' @ name) = Some True"
  show "name \<in> set (kindData (add m policy) kind t)"
  proof (cases "nameCacheMap m t (kind @ ''/'' @ name) = Some True")
    case True
    then have "name \<in> set (kindData m kind t)"
      using assms(1) h unfolding recordedIndexed_def by blast
    then show ?thesis by (simp add: kindData_add)
  next
    case False
    then obtain kind' where k': "indexedUnder policy kind' t"
      "kind @ ''/'' @ name = kind' @ ''/'' @ pName policy"
      using h by (auto simp: nameCacheMap_add split: if_splits)
    then have "CHR ''/'' \<notin> set kind'"
      using assms(2) unfolding plainKinds_def indexedUnder_def by blast
    then have "kind = kind' \<and> name = pName policy"
      using h k'(2) by (intro plain_key_split) auto
    then show ?thesis
      using k'(1) False by (simp add: kindData_add)
  qed
qed

lemma recordedIndexed_remove: "recordedIndexed m \<Longrightarrow> recordedIndexed (remove m policy)"
  unfolding recordedIndexed_def
  by (auto simp: kindData_remove nameCacheMap_remove split: if_splits)

lemma recordedIndexed_run:
  "recordedIndexed m \<Longrightarrow> \<forall>op \<in> set ops. plainKinds (policyOf op) \<Longrightarrow> recordedIndexed (run m ops)"
  unfolding run_def
proof (induction ops arbitrary: m)
  case Nil
  then show ?case by simp
next
  case (Cons op ops)
  then show ?case by (cases op) (simp_all add: recordedIndexed_add recordedIndexed_remove)
qed

lemma recorded_names_are_indexed:
  assumes "\<forall>op \<in> set ops. plainKinds (policyOf op)" and "CHR ''/'' \<notin> set kind"
    and "nameCacheMap (run (newPolicyCache pl npl) ops) t (kind @ ''/'' @ name) = Some True"
  shows "name \<in> set (kindData (run (newPolicyCache pl npl) ops) kind t)"
proof -
  have "recordedIndexed (newPolicyCache pl npl)"
    by (simp add: recordedIndexed_def newPolicyCache_def)
  then have "recordedIndexed (run (newPolicyCache pl npl) ops)"
    using assms(1) by (rule recordedIndexed_run)
  then show ?thesis
    using assms(2,3) unfolding recordedIndexed_def by blast
qed

subsection \<open>Evaluating the examples\<close>

lemmas example_defs =
  kindData_empty emptyCache_def newPolicyCache_def policyP1_def policyP2_def policyP3_def policyValidate_def
  policyTwoRules_def policyNamespacedC_def policyClusterC_def clusterStore_def namespacedStore_def sameObject_def
  indexedUnder_def classify_def pName_def

lemmas get_closed =
  get_def getLoop_closed entryVisible_def entryName_def entryPolicy_def ParseNamespacedPolicy_def

section \<open>The claims\<close>

text \<open>
  C1. For every policy, \<open>remove\<close> deletes the composite key \<open>kind/name\<close>, for every rule
  of the policy and every kind the rule matches, from the inner maps of \<open>nameCacheMap\<close>
  of all four policy types, whichever type the policy was indexed under; every other key
  stays as it was. \<open>kindDataMap\<close> is left unchanged, so every \<open>get\<close> returns after
  the removal what it returned before.
\<close>

theorem remove_prunes_nameCacheMap_only:
  "kindDataMap (remove m policy) = kindDataMap m \<and>
   (\<forall>rule \<in> set (Rules policy). \<forall>kind \<in> set (Kinds rule). \<forall>t.
      nameCacheMap (remove m policy) t (kind @ ''/'' @ pName policy) = None) \<and>
   (\<forall>t k. (\<forall>rule \<in> set (Rules policy). \<forall>kind \<in> set (Kinds rule).
              k \<noteq> kind @ ''/'' @ pName policy) \<longrightarrow>
      nameCacheMap (remove m policy) t k = nameCacheMap m t k) \<and>
   get parse convert (remove m policy) key kind' nspace = get parse convert m key kind' nspace"
proof -
  have "get parse convert (remove m policy) key kind' nspace = get parse convert m key kind' nspace"
    unfolding get_def kindData_remove
    by (rule getLoop_listers) (simp_all add: remove_frame)
  moreover have "\<forall>rule \<in> set (Rules policy). \<forall>kind \<in> set (Kinds rule). \<forall>t.
      nameCacheMap (remove m policy) t (kind @ ''/'' @ pName policy) = None"
    unfolding nameCacheMap_remove by auto
  moreover have "\<forall>t k. (\<forall>rule \<in> set (Rules policy). \<forall>kind \<in> set (Kinds rule).
              k \<noteq> kind @ ''/'' @ pName policy) \<longrightarrow>
      nameCacheMap (remove m policy) t k = nameCacheMap m t k"
    unfolding nameCacheMap_remove by auto
  ultimately show ?thesis by (simp add: remove_frame)
qed

theorem remove_prunes_nameCacheMap_only_witness:
  "nameCacheMap (add (add emptyCache policyP2) policyP3) Generate ''ConfigMap/p3'' = Some True \<and>
   nameCacheMap (remove (add (add emptyCache policyP2) policyP3) policyP3) Mutate ''ConfigMap/p3''
     = None \<and>
   nameCacheMap (remove (add (add emptyCache policyP2) policyP3) policyP3) ValidateEnforce ''ConfigMap/p3''
     = None \<and>
   nameCacheMap (remove (add (add emptyCache policyP2) policyP3) policyP3) ValidateAudit ''ConfigMap/p3''
     = None \<and>
   nameCacheMap (remove (add (add emptyCache policyP2) policyP3) policyP3) Generate ''ConfigMap/p3''
     = None \<and>
   nameCacheMap (remove (add (add emptyCache policyP2) policyP3) policyP3) Generate ''Pod/p2''
     = Some True \<and>
   kindDataMap (remove (add (add emptyCache policyP2) policyP3) policyP3)
     = kindDataMap (add (add emptyCache policyP2) policyP3) \<and>
   get ParseNamespacedPolicy sameObject (remove (add (add emptyCache policyP2) policyP3) policyP3)
     Generate ''ConfigMap'' [] = ([''p3''], [Some policyP3])"
  using remove_prunes_nameCacheMap_only
    [of "add (add emptyCache policyP2) policyP3" policyP3 ParseNamespacedPolicy sameObject
        Generate "''ConfigMap''" "[]"]
  by (simp add: nameCacheMap_add kindData_add listers_add get_closed example_defs)







text \<open>
  C4. \<open>add\<close> is idempotent: in every state of the index, adding a policy a second time
  changes nothing. The state after the second \<open>add\<close> is the state after the first, so
  \<open>kindDataMap\<close> and the sequence of every kind and policy type are the same.
\<close>

theorem add_idempotent:
  "add (add m policy) policy = add m policy \<and>
   kindDataMap (add (add m policy) policy) = kindDataMap (add m policy) \<and>
   kindData (add (add m policy) policy) kind t = kindData (add m policy) kind t"
  by (simp add: add_twice)

theorem add_idempotent_witness:
  "kindData (add emptyCache policyP1) ''Pod'' Mutate = [''ns1/p1''] \<and>
   kindData (add (add emptyCache policyP1) policyP1) ''Pod'' Mutate = [''ns1/p1'']"
  using add_idempotent [of emptyCache policyP1 "''Pod''" Mutate]
  by (simp add: kindData_add example_defs)

text \<open>
  C5. After every sequence of \<open>add\<close> and \<open>remove\<close> from the empty index, a policy
  name should occur at most once in the sequence of a kind and a policy type. The code
  breaks this: \<open>remove\<close> deletes the composite key and leaves the name in \<open>kindDataMap\<close>,
  so adding the policy again appends the name a second time, and \<open>get\<close> returns it
  twice.
\<close>

theorem add_after_remove_duplicates:
  "kindData (run emptyCache [Add policyP3]) ''ConfigMap'' Generate = [''p3''] \<and>
   kindData (run emptyCache [Add policyP3, Remove policyP3, Add policyP3]) ''ConfigMap'' Generate
     = [''p3'', ''p3''] \<and>
   \<not> distinct (kindData (run emptyCache [Add policyP3, Remove policyP3, Add policyP3])
                  ''ConfigMap'' Generate) \<and>
   get ParseNamespacedPolicy sameObject (run emptyCache [Add policyP3, Remove policyP3, Add policyP3])
     Generate ''ConfigMap'' [] = ([''p3'', ''p3''], [Some policyP3, Some policyP3])"
  by (simp add: run_def kindData_add kindData_remove nameCacheMap_remove nameCacheMap_add
        listers_add remove_frame get_closed example_defs)

text \<open>
  C6. For every call of \<open>get\<close>, in every state of the index and whatever the listers
  return, the sequence of names and the sequence of objects have the same length, and
  at each position the name and the object come from the same indexed name: both
  sequences are images of the one sequence of indexed names that pass the namespace test.
\<close>

theorem get_parallel_sequences:
  "length (fst (get parse convert m key kind nspace)) =
     length (snd (get parse convert m key kind nspace)) \<and>
   get parse convert m key kind nspace =
     (map (entryName parse) (filter (entryVisible parse nspace) (kindData m kind key)),
      map (entryPolicy parse convert m) (filter (entryVisible parse nspace) (kindData m kind key))) \<and>
   (\<forall>i < length (fst (get parse convert m key kind nspace)).
      fst (get parse convert m key kind nspace) ! i =
        entryName parse (filter (entryVisible parse nspace) (kindData m kind key) ! i) \<and>
      snd (get parse convert m key kind nspace) ! i =
        entryPolicy parse convert m (filter (entryVisible parse nspace) (kindData m kind key) ! i))"
  by (simp add: get_def getLoop_closed)

theorem get_parallel_sequences_witness:
  "kindData (add (add emptyCache policyP1) policyTwoRules) ''Pod'' Mutate = [''ns1/p1'', ''both''] \<and>
   get ParseNamespacedPolicy sameObject (add (add emptyCache policyP1) policyTwoRules)
     Mutate ''Pod'' ''ns1'' = ([''p1'', ''both''], [Some policyP1, None]) \<and>
   length (fst (get ParseNamespacedPolicy sameObject (add (add emptyCache policyP1) policyTwoRules)
     Mutate ''Pod'' ''ns1'')) = 2 \<and>
   length (snd (get ParseNamespacedPolicy sameObject (add (add emptyCache policyP1) policyTwoRules)
     Mutate ''Pod'' ''ns1'')) = 2"
  using get_parallel_sequences [of ParseNamespacedPolicy sameObject
      "add (add emptyCache policyP1) policyTwoRules" Mutate "''Pod''" "''ns1''"]
  by (simp add: kindData_add nameCacheMap_add listers_add get_closed example_defs)

text \<open>
  C7. An indexed name that the parser reports as namespaced contributes to the result of
  \<open>get\<close> exactly when its namespace is the requested one: then the unqualified name and
  the converted object of the namespaced lister stand at its place in the two sequences;
  otherwise nothing stands there, and the entries before and after it are read as if it
  were absent.
\<close>

theorem get_namespaced_entry:
  assumes "kindData m kind key = before @ policyName # after"
    and "parse policyName = (ns, name, True)"
  shows "get parse convert m key kind nspace =
     (fst (getLoop parse convert m nspace before) @ (if ns = nspace then [name] else []) @
        fst (getLoop parse convert m nspace after),
      snd (getLoop parse convert m nspace before) @
        (if ns = nspace then [convert (fst (npLister m ns name))] else []) @
        snd (getLoop parse convert m nspace after))"
  using assms
  by (simp add: get_def getLoop_closed entryVisible_def entryName_def entryPolicy_def)

theorem get_namespaced_entry_witness:
  "kindData (add (add emptyCache policyP1) policyTwoRules) ''Pod'' Mutate = [] @ ''ns1/p1'' # [''both''] \<and>
   ParseNamespacedPolicy ''ns1/p1'' = (''ns1'', ''p1'', True) \<and>
   get ParseNamespacedPolicy sameObject (add (add emptyCache policyP1) policyTwoRules)
     Mutate ''Pod'' ''ns1'' = ([''p1'', ''both''], [Some policyP1, None]) \<and>
   get ParseNamespacedPolicy sameObject (add (add emptyCache policyP1) policyTwoRules)
     Mutate ''Pod'' ''ns2'' = ([''both''], [None])"
proof -
  let ?m = "add (add emptyCache policyP1) policyTwoRules"
  have k: "kindData ?m ''Pod'' Mutate = [] @ ''ns1/p1'' # [''both'']"
    by (simp add: kindData_add nameCacheMap_add example_defs)
  have p: "ParseNamespacedPolicy ''ns1/p1'' = (''ns1'', ''p1'', True)"
    by (simp add: ParseNamespacedPolicy_def)
  have l: "getLoop ParseNamespacedPolicy sameObject ?m nspace [''both''] = ([''both''], [None])"
    "getLoop ParseNamespacedPolicy sameObject ?m nspace [] = ([], [])" for nspace
    by (simp_all add: listers_add getLoop_closed entryVisible_def entryName_def entryPolicy_def
          ParseNamespacedPolicy_def example_defs)
  have n: "sameObject (fst (npLister ?m ''ns1'' ''p1'')) = Some policyP1"
    by (simp add: listers_add example_defs)
  show ?thesis
    using get_namespaced_entry
        [where parse = ParseNamespacedPolicy and convert = sameObject and nspace = "''ns1''", OF k p]
      get_namespaced_entry
        [where parse = ParseNamespacedPolicy and convert = sameObject and nspace = "''ns2''", OF k p]
      k p
    by (simp add: l n)
qed

text \<open>
  C8. An indexed name that the parser reports as cluster-scoped always contributes to the
  result of \<open>get\<close>: the indexed name and whatever object the cluster lister returned
  stand at its place in the two sequences. The error of the lister is not looked at, and
  when the lister returns no object the absent object is appended beside the name.
\<close>

theorem get_cluster_entry:
  assumes "kindData m kind key = before @ policyName # after"
    and "parse policyName = (ns, name, False)"
  shows "get parse convert m key kind nspace =
     (fst (getLoop parse convert m nspace before) @ [policyName] @
        fst (getLoop parse convert m nspace after),
      snd (getLoop parse convert m nspace before) @ [fst (pLister m name)] @
        snd (getLoop parse convert m nspace after)) \<and>
   (fst (pLister m name) = None \<longrightarrow>
      fst (get parse convert m key kind nspace) ! length (fst (getLoop parse convert m nspace before))
        = policyName \<and>
      snd (get parse convert m key kind nspace) ! length (fst (getLoop parse convert m nspace before))
        = None)"
proof -
  have len: "length (fst (getLoop parse convert m nspace before)) =
             length (snd (getLoop parse convert m nspace before))"
    by (simp add: getLoop_closed)
  have g: "get parse convert m key kind nspace =
     (fst (getLoop parse convert m nspace before) @ [policyName] @
        fst (getLoop parse convert m nspace after),
      snd (getLoop parse convert m nspace before) @ [fst (pLister m name)] @
        snd (getLoop parse convert m nspace after))"
    using assms
    by (simp add: get_def getLoop_closed entryVisible_def entryName_def entryPolicy_def)
  show ?thesis
    unfolding g by (simp add: len nth_append)
qed

theorem get_cluster_entry_witness:
  "kindData (add emptyCache policyTwoRules) ''Pod'' Mutate = [] @ ''both'' # [] \<and>
   ParseNamespacedPolicy ''both'' = ([], ''both'', False) \<and>
   pLister (add emptyCache policyTwoRules) ''both'' = (None, Some ''not found'') \<and>
   get ParseNamespacedPolicy sameObject (add emptyCache policyTwoRules) Mutate ''Pod'' ''ns1''
     = ([''both''], [None])"
proof -
  let ?m = "add emptyCache policyTwoRules"
  have k: "kindData ?m ''Pod'' Mutate = [] @ ''both'' # []"
    by (simp add: kindData_add nameCacheMap_add example_defs)
  have p: "ParseNamespacedPolicy ''both'' = ([], ''both'', False)"
    by (simp add: ParseNamespacedPolicy_def)
  have l: "getLoop ParseNamespacedPolicy sameObject ?m ''ns1'' [] = ([], [])"
    by (simp add: getLoop_closed)
  have n: "pLister ?m ''both'' = (None, Some ''not found'')"
    by (simp add: listers_add example_defs)
  show ?thesis
    using get_cluster_entry
        [where parse = ParseNamespacedPolicy and convert = sameObject and nspace = "''ns1''", OF k p]
      k p n
    by (simp add: l)
qed

text \<open>
  C9, as amended. \<open>add\<close> classifies rule by rule, and one policy type applies to a rule
  and a kind: the step for one rule and one kind changes the sequence of at most one kind
  and policy type, the type into which the rule is classified. After \<open>add\<close> the name of
  the policy is in the sequence of a kind and a policy type exactly when it was there
  before, or some rule of the policy that matches the kind is classified into the type
  and the composite key was not yet recorded under the type. Hence at most one policy
  type holds the name for the kind after \<open>add\<close> exactly when at most one policy type
  either held it before or receives it in this way.
\<close>

theorem add_holds_name_per_classified_rule:
  "(\<forall>k1 t1 k2 t2.
      kindData (addKind policy rule kind m) k1 t1 \<noteq> kindData m k1 t1 \<and>
      kindData (addKind policy rule kind m) k2 t2 \<noteq> kindData m k2 t2 \<longrightarrow>
      k1 = kind \<and> k2 = kind \<and> t1 = t2 \<and> classify policy rule = Some t1) \<and>
   (pName policy \<in> set (kindData (add m policy) kind t) \<longleftrightarrow>
      pName policy \<in> set (kindData m kind t) \<or>
      indexedUnder policy kind t \<and> nameCacheMap m t (kind @ ''/'' @ pName policy) \<noteq> Some True) \<and>
   ((\<forall>t1 t2. pName policy \<in> set (kindData (add m policy) kind t1) \<and>
             pName policy \<in> set (kindData (add m policy) kind t2) \<longrightarrow> t1 = t2) \<longleftrightarrow>
    (\<forall>t1 t2.
        (pName policy \<in> set (kindData m kind t1) \<or>
         indexedUnder policy kind t1 \<and>
           nameCacheMap m t1 (kind @ ''/'' @ pName policy) \<noteq> Some True) \<and>
        (pName policy \<in> set (kindData m kind t2) \<or>
         indexedUnder policy kind t2 \<and>
           nameCacheMap m t2 (kind @ ''/'' @ pName policy) \<noteq> Some True) \<longrightarrow>
        t1 = t2))"
proof -
  have a: "\<forall>k1 t1 k2 t2.
      kindData (addKind policy rule kind m) k1 t1 \<noteq> kindData m k1 t1 \<and>
      kindData (addKind policy rule kind m) k2 t2 \<noteq> kindData m k2 t2 \<longrightarrow>
      k1 = kind \<and> k2 = kind \<and> t1 = t2 \<and> classify policy rule = Some t1"
    by (auto simp: kindData_addKind split: if_splits)
  have b: "pName policy \<in> set (kindData (add m policy) kind t) \<longleftrightarrow>
      pName policy \<in> set (kindData m kind t) \<or>
      indexedUnder policy kind t \<and> nameCacheMap m t (kind @ ''/'' @ pName policy) \<noteq> Some True"
    for t
    by (auto simp: kindData_add)
  have c: "(\<forall>t1 t2. pName policy \<in> set (kindData (add m policy) kind t1) \<and>
             pName policy \<in> set (kindData (add m policy) kind t2) \<longrightarrow> t1 = t2) \<longleftrightarrow>
    (\<forall>t1 t2.
        (pName policy \<in> set (kindData m kind t1) \<or>
         indexedUnder policy kind t1 \<and>
           nameCacheMap m t1 (kind @ ''/'' @ pName policy) \<noteq> Some True) \<and>
        (pName policy \<in> set (kindData m kind t2) \<or>
         indexedUnder policy kind t2 \<and>
           nameCacheMap m t2 (kind @ ''/'' @ pName policy) \<noteq> Some True) \<longrightarrow>
        t1 = t2)"
    unfolding b ..
  show ?thesis
    by (rule conjI [OF a conjI [OF b c]])
qed

theorem add_holds_name_per_classified_rule_witness:
  "pName policyP1 \<in> set (kindData (add emptyCache policyP1) ''Pod'' Mutate) \<and>
   pName policyP1 \<notin> set (kindData (add emptyCache policyP1) ''Pod'' ValidateEnforce) \<and>
   pName policyP1 \<notin> set (kindData (add emptyCache policyP1) ''Pod'' ValidateAudit) \<and>
   pName policyP1 \<notin> set (kindData (add emptyCache policyP1) ''Pod'' Generate)"
  using add_holds_name_per_classified_rule
    [of policyP1 "\<lparr>Kinds = [''Pod''], HasMutate = True, HasValidate = True, HasGenerate = False\<rparr>"
        "''Pod''" emptyCache Mutate]
  by (simp add: kindData_add example_defs)

text \<open>
  C9 as stated fails on a policy with two rules on one kind: after \<open>add\<close> from the
  empty index, the name of \<open>policyTwoRules\<close> is under \<open>Mutate\<close> and under
  \<open>ValidateEnforce\<close> for the kind \<open>Pod\<close>.
\<close>

theorem two_rules_two_types_counterexample:
  "pName policyTwoRules \<in> set (kindData (add emptyCache policyTwoRules) ''Pod'' Mutate) \<and>
   pName policyTwoRules \<in> set (kindData (add emptyCache policyTwoRules) ''Pod'' ValidateEnforce) \<and>
   Mutate \<noteq> ValidateEnforce"
  by (simp add: kindData_add example_defs)

text \<open>
  C10. \<open>add\<close> is monotone: in every state of the index, the sequence of every kind and
  policy type after \<open>add\<close> is the sequence before it followed by what was appended, so
  every name keeps its position; every kind that had an inner map keeps one; every
  composite key recorded in \<open>nameCacheMap\<close> stays recorded.
\<close>

theorem add_monotone:
  "(\<exists>new. kindData (add m policy) kind t = kindData m kind t @ new) \<and>
   (\<forall>i < length (kindData m kind t). kindData (add m policy) kind t ! i = kindData m kind t ! i) \<and>
   (\<forall>name \<in> set (kindData m kind t). name \<in> set (kindData (add m policy) kind t)) \<and>
   dom (kindDataMap m) \<subseteq> dom (kindDataMap (add m policy)) \<and>
   dom (nameCacheMap m t) \<subseteq> dom (nameCacheMap (add m policy) t) \<and>
   (nameCacheMap m t k = Some True \<longrightarrow> nameCacheMap (add m policy) t k = Some True)"
proof -
  have "dom (nameCacheMap m t) \<subseteq> dom (nameCacheMap (add m policy) t)"
    by (auto simp: nameCacheMap_add)
  moreover have "dom (kindDataMap m) \<subseteq> dom (kindDataMap (add m policy))"
    unfolding dom_kindDataMap_add by blast
  moreover have "\<forall>i < length (kindData m kind t).
      kindData (add m policy) kind t ! i = kindData m kind t ! i"
    by (simp add: kindData_add nth_append)
  ultimately show ?thesis
    by (simp add: kindData_add nameCacheMap_add)
qed

theorem add_monotone_witness:
  "kindData (add emptyCache (policyValidate ''enforce'')) ''Pod'' ValidateEnforce = [''check''] \<and>
   kindData (add (add emptyCache (policyValidate ''enforce'')) policyTwoRules) ''Pod'' ValidateEnforce
     = [''check'', ''both''] \<and>
   kindData (add (add emptyCache (policyValidate ''enforce'')) policyTwoRules) ''Pod'' ValidateEnforce ! 0
     = ''check'' \<and>
   nameCacheMap (add emptyCache (policyValidate ''enforce'')) ValidateEnforce ''Pod/check'' = Some True \<and>
   nameCacheMap (add (add emptyCache (policyValidate ''enforce'')) policyTwoRules)
     ValidateEnforce ''Pod/check'' = Some True"
  using add_monotone [of "add emptyCache (policyValidate ''enforce'')" policyTwoRules
      "''Pod''" ValidateEnforce "''Pod/check''"]
  by (simp add: kindData_add nameCacheMap_add example_defs)

end
